theory Spec2Isabelle
  imports Complex_Main
begin

section \<open>Law of large numbers: the Bernoulli simulation scripts\<close>

text \<open>
  The repository holds two scripts, \<^verbatim>\<open>law_large_numbers.py\<close> (seeded) and
  \<^verbatim>\<open>law_large_numbers3.py\<close> (unseeded, log-scale charts). Each reads its
  widgets, builds the list \<^verbatim>\<open>n_values\<close>, and, when the button was pressed,
  creates a generator and runs one loop over \<^verbatim>\<open>n_values\<close>.

  Modelling decisions:
  \<^item> Python \<^verbatim>\<open>int\<close> is \<open>int\<close>. Python \<^verbatim>\<open>float\<close> is idealised as
    \<open>real\<close>: \<^verbatim>\<open>/\<close>, \<^verbatim>\<open>-\<close> and \<^verbatim>\<open>abs\<close> are the exact operations, and the
    rounding of binary64 is not modelled.
  \<^item> The generator object of numpy is a value of an arbitrary type \<open>'g\<close>. The two
    numpy calls of the scripts, \<^verbatim>\<open>np.random.default_rng\<close> and
    \<^verbatim>\<open>rng.binomial\<close>, are parameters of the model: \<open>default_rng\<close> maps an
    integer to a generator, and \<open>rng_binomial\<close> maps a generator, \<open>n\<close> and
    \<open>p\<close> to the drawn count and the generator after the draw. Both are functions,
    as a seeded generator of numpy is, and both are taken to return: the argument
    checks of numpy are outside the repository. Beyond that nothing is assumed about
    them, except where a statement names the sampler \<open>spec_binomial\<close>, which
    follows the spec.
  \<^item> \<^verbatim>\<open>default_rng()\<close> without an argument seeds the generator from entropy of
    the operating system. That entropy is an input of a run, \<open>entropy\<close>, and the
    unseeded call is \<open>default_rng entropy\<close>.
  \<^item> Division of Python integers raises \<^verbatim>\<open>ZeroDivisionError\<close> on a zero divisor;
    the raise is the \<open>Inl\<close> branch of a sum.
  \<^item> The table and the charts are left out; the output of a run is the list
    \<^verbatim>\<open>rows\<close> from which the data frame is built.
\<close>

subsection \<open>Values shared by the two scripts\<close>

datatype error = ZeroDivisionError

text \<open>
  One element of \<^verbatim>\<open>rows\<close>: the dictionary with the keys \<^verbatim>\<open>"n"\<close>,
  \<^verbatim>\<open>"result"\<close> and \<^verbatim>\<open>"|result - p|"\<close>.
\<close>

record row =
  row_n :: int
  row_result :: real
  row_abs_diff :: real

text \<open>Python's \<^verbatim>\<open>successes / n\<close> on two integers.\<close>

definition true_div :: "int \<Rightarrow> int \<Rightarrow> error + real" where
  "true_div a b = (if b = 0 then Inl ZeroDivisionError else Inr (real_of_int a / real_of_int b))"

text \<open>
  An input widget of streamlit returns what the user entered, and its
  \<^verbatim>\<open>value=\<close> argument while the user has entered nothing.
\<close>

definition widget_value :: "'a \<Rightarrow> 'a option \<Rightarrow> 'a" where
  "widget_value dflt entry = (case entry of None \<Rightarrow> dflt | Some v \<Rightarrow> v)"

subsection \<open>\<^verbatim>\<open>law_large_numbers.py\<close>\<close>

definition n_values :: "bool \<Rightarrow> int list" where
  "n_values include_big_n = [10, 50, 100, 1000] @ (if include_big_n then [10000000] else [])"

text \<open>
  The body of the loop, lines 32 to 35. It returns the local \<^verbatim>\<open>successes\<close>
  beside the row it appends (the row itself does not store the count), and the
  generator after the draw.
\<close>

definition trial ::
  "('g \<Rightarrow> int \<Rightarrow> real \<Rightarrow> int \<times> 'g) \<Rightarrow> 'g \<Rightarrow> real \<Rightarrow> int \<Rightarrow> error + ((int \<times> row) \<times> 'g)" where
  "trial rng_binomial rng p n =
     (let (successes, rng') = rng_binomial rng n p in
      case true_div successes n of
        Inl e \<Rightarrow> Inl e
      | Inr result \<Rightarrow>
          let abs_diff = \<bar>result - p\<bar> in
          Inr ((successes, \<lparr>row_n = n, row_result = result, row_abs_diff = abs_diff\<rparr>), rng'))"

text \<open>The loop \<^verbatim>\<open>for n in n_values\<close>, with \<^verbatim>\<open>rows\<close> as accumulator.\<close>

fun simulation_loop ::
  "('g \<Rightarrow> int \<Rightarrow> real \<Rightarrow> int \<times> 'g) \<Rightarrow> 'g \<Rightarrow> real \<Rightarrow> int list \<Rightarrow> (int \<times> row) list
     \<Rightarrow> error + ((int \<times> row) list \<times> 'g)" where
  "simulation_loop rng_binomial rng p [] rows = Inr (rows, rng)"
| "simulation_loop rng_binomial rng p (n # ns) rows =
     (case trial rng_binomial rng p n of
        Inl e \<Rightarrow> Inl e
      | Inr (r, rng') \<Rightarrow> simulation_loop rng_binomial rng' p ns (rows @ [r]))"

text \<open>
  The script. \<open>None\<close> is the branch that only shows the hint to press the button.
  The seed widget has \<^verbatim>\<open>value=42\<close>, the slider \<^verbatim>\<open>value=0.5\<close>, the checkbox
  \<^verbatim>\<open>value=False\<close>. The argument \<open>entropy\<close> is the entropy the operating system
  would hand out during the run; this script never asks for it.
\<close>

definition law_large_numbers ::
  "(int \<Rightarrow> 'g) \<Rightarrow> ('g \<Rightarrow> int \<Rightarrow> real \<Rightarrow> int \<times> 'g) \<Rightarrow> int
     \<Rightarrow> real option \<Rightarrow> int option \<Rightarrow> bool option \<Rightarrow> bool
     \<Rightarrow> (error + (int \<times> row) list) option" where
  "law_large_numbers default_rng rng_binomial entropy p_entry seed_entry big_entry run =
     (let p = widget_value 0.5 p_entry;
          seed = widget_value 42 seed_entry;
          include_big_n = widget_value False big_entry
      in if run then
           (let rng = default_rng seed in
            case simulation_loop rng_binomial rng p (n_values include_big_n) [] of
              Inl e \<Rightarrow> Some (Inl e)
            | Inr (rows, rng') \<Rightarrow> Some (Inr rows))
         else None)"

subsection \<open>\<^verbatim>\<open>law_large_numbers3.py\<close>\<close>

definition n_values3 :: "bool \<Rightarrow> int list" where
  "n_values3 include_big_n = [10, 50, 100, 1000] @ (if include_big_n then [10000000] else [])"

text \<open>The body of the loop, lines 37 to 40.\<close>

definition trial3 ::
  "('g \<Rightarrow> int \<Rightarrow> real \<Rightarrow> int \<times> 'g) \<Rightarrow> 'g \<Rightarrow> real \<Rightarrow> int \<Rightarrow> error + ((int \<times> row) \<times> 'g)" where
  "trial3 rng_binomial rng p n =
     (let (successes, rng') = rng_binomial rng n p in
      case true_div successes n of
        Inl e \<Rightarrow> Inl e
      | Inr result \<Rightarrow>
          let abs_diff = \<bar>result - p\<bar> in
          Inr ((successes, \<lparr>row_n = n, row_result = result, row_abs_diff = abs_diff\<rparr>), rng'))"

fun simulation_loop3 ::
  "('g \<Rightarrow> int \<Rightarrow> real \<Rightarrow> int \<times> 'g) \<Rightarrow> 'g \<Rightarrow> real \<Rightarrow> int list \<Rightarrow> (int \<times> row) list
     \<Rightarrow> error + ((int \<times> row) list \<times> 'g)" where
  "simulation_loop3 rng_binomial rng p [] rows = Inr (rows, rng)"
| "simulation_loop3 rng_binomial rng p (n # ns) rows =
     (case trial3 rng_binomial rng p n of
        Inl e \<Rightarrow> Inl e
      | Inr (r, rng') \<Rightarrow> simulation_loop3 rng_binomial rng' p ns (rows @ [r]))"

text \<open>
  The script has no seed widget; line 33 creates the generator from the entropy of
  the operating system.
\<close>

definition law_large_numbers3 ::
  "(int \<Rightarrow> 'g) \<Rightarrow> ('g \<Rightarrow> int \<Rightarrow> real \<Rightarrow> int \<times> 'g) \<Rightarrow> int
     \<Rightarrow> real option \<Rightarrow> bool option \<Rightarrow> bool
     \<Rightarrow> (error + (int \<times> row) list) option" where
  "law_large_numbers3 default_rng rng_binomial entropy p_entry big_entry run =
     (let p = widget_value 0.5 p_entry;
          include_big_n = widget_value False big_entry
      in if run then
           (let rng = default_rng entropy in
            case simulation_loop3 rng_binomial rng p (n_values3 include_big_n) [] of
              Inl e \<Rightarrow> Some (Inl e)
            | Inr (rows, rng') \<Rightarrow> Some (Inr rows))
         else None)"

subsection \<open>Reading the output of a run\<close>

text \<open>The counts drawn in a run, in the order of the draws.\<close>

definition successes_of :: "(error + (int \<times> row) list) option \<Rightarrow> (error + int list) option" where
  "successes_of out = map_option (map_sum id (map fst)) out"


subsection \<open>The sampler\<close>

text \<open>
  Modelled from the spec: the sampler behind \<^verbatim>\<open>rng.binomial\<close>. It is a function of
  numpy, and the repository holds no source of it. The glossary of the spec says that
  a Bernoulli trial has two outcomes, success with probability \<open>p\<close>, and that
  Binomial(n, p) is the number of successes in \<open>n\<close> independent Bernoulli(p)
  trials. Here a generator is the sequence of the uniform variates it will hand out,
  each in the half-open unit interval; a trial consumes one variate and succeeds when
  the variate lies below \<open>p\<close>; a draw consumes \<open>n\<close> variates and counts the
  successes.
\<close>

typedef variate = "{u::real. 0 \<le> u \<and> u < 1}"
  by (rule exI[of _ 0]) simp

type_synonym generator = "nat \<Rightarrow> variate"

text \<open>Modelled from the spec: one Bernoulli(p) trial on one variate.\<close>

definition bernoulli :: "real \<Rightarrow> variate \<Rightarrow> bool" where
  "bernoulli p u = (Rep_variate u < p)"

text \<open>
  Modelled from the spec: one draw from Binomial(n, p), the count of the successes in
  \<open>n\<close> trials, and the generator without the variates the draw consumed.
\<close>

definition spec_binomial :: "generator \<Rightarrow> int \<Rightarrow> real \<Rightarrow> int \<times> generator" where
  "spec_binomial rng n p =
     (int (length (filter (bernoulli p) (map rng [0..<nat n]))), (\<lambda>i. rng (i + nat n)))"

section \<open>Properties of the loop\<close>

lemma trial_Inr:
  "n \<noteq> 0 \<Longrightarrow> trial rng_binomial rng p n =
     Inr ((fst (rng_binomial rng n p),
           \<lparr>row_n = n,
            row_result = real_of_int (fst (rng_binomial rng n p)) / real_of_int n,
            row_abs_diff = \<bar>real_of_int (fst (rng_binomial rng n p)) / real_of_int n - p\<bar>\<rparr>),
          snd (rng_binomial rng n p))"
  by (simp add: trial_def true_div_def split: prod.splits)

lemma trial_zero: "trial rng_binomial rng p 0 = Inl ZeroDivisionError"
  by (simp add: trial_def true_div_def split: prod.splits)

lemma trial3_eq: "trial3 rng_binomial rng p n = trial rng_binomial rng p n"
  by (simp add: trial3_def trial_def)

lemma simulation_loop3_eq:
  "simulation_loop3 rng_binomial rng p ns rows = simulation_loop rng_binomial rng p ns rows"
  by (induction ns arbitrary: rng rows) (auto simp: trial3_eq split: sum.splits)

lemma n_values3_eq: "n_values3 b = n_values b"
  by (simp add: n_values3_def n_values_def)

text \<open>What one pass of the body leaves in the row it appends.\<close>

lemma trial_row:
  assumes "trial rng_binomial rng p n = Inr ((s, r), rng')"
  shows "n \<noteq> 0 \<and> s = fst (rng_binomial rng n p) \<and> rng' = snd (rng_binomial rng n p)
         \<and> row_n r = n \<and> row_result r = real_of_int s / real_of_int n
         \<and> row_abs_diff r = \<bar>row_result r - p\<bar>"
proof (cases "n = 0")
  case True
  with assms show ?thesis by (simp add: trial_zero)
next
  case False
  with assms show ?thesis by (auto simp: trial_Inr)
qed

text \<open>A property of every appended row holds of the whole list at the end.\<close>

lemma simulation_loop_all:
  assumes "simulation_loop rng_binomial rng p ns rows = Inr (tr, g)"
    and "\<forall>x \<in> set rows. P x"
    and "\<And>rng n s r rng'. n \<in> set ns \<Longrightarrow>
           trial rng_binomial rng p n = Inr ((s, r), rng') \<Longrightarrow> P (s, r)"
  shows "\<forall>x \<in> set tr. P x"
  using assms
proof (induction ns arbitrary: rng rows)
  case Nil
  then show ?case by simp
next
  case (Cons n ns)
  from Cons.prems(1) obtain s r rng' where
    t: "trial rng_binomial rng p n = Inr ((s, r), rng')" and
    l: "simulation_loop rng_binomial rng' p ns (rows @ [(s, r)]) = Inr (tr, g)"
    by (auto split: sum.splits)
  have "P (s, r)"
    using Cons.prems(3)[OF _ t] by simp
  then have a: "\<forall>x \<in> set (rows @ [(s, r)]). P x"
    using Cons.prems(2) by simp
  have b: "P (s', r')"
    if "m \<in> set ns" and "trial rng_binomial rng0 p m = Inr ((s', r'), rng1)"
    for rng0 m s' r' rng1
    using Cons.prems(3)[of m rng0 s' r' rng1] that by simp
  from Cons.IH[OF l a b] show ?case .
qed

text \<open>
  Over a list of nonzero sizes the loop ends without an error, and the rows it
  appends carry the sizes in the order of the list.
\<close>

lemma simulation_loop_sizes:
  assumes "0 \<notin> set ns"
  shows "\<exists>tr g. simulation_loop rng_binomial rng p ns rows = Inr (rows @ tr, g)
           \<and> map (\<lambda>x. row_n (snd x)) tr = ns"
  using assms
proof (induction ns arbitrary: rng rows)
  case Nil
  then show ?case by simp
next
  case (Cons n ns)
  then have n: "n \<noteq> 0" and ns: "0 \<notin> set ns" by auto
  let ?s = "fst (rng_binomial rng n p)"
  let ?r = "\<lparr>row_n = n, row_result = real_of_int ?s / real_of_int n,
             row_abs_diff = \<bar>real_of_int ?s / real_of_int n - p\<bar>\<rparr>"
  from Cons.IH[OF ns, of "snd (rng_binomial rng n p)" "rows @ [(?s, ?r)]"]
  obtain tr g where
    l: "simulation_loop rng_binomial (snd (rng_binomial rng n p)) p ns (rows @ [(?s, ?r)])
          = Inr ((rows @ [(?s, ?r)]) @ tr, g)"
    and m: "map (\<lambda>x. row_n (snd x)) tr = ns"
    by blast
  have a: "simulation_loop rng_binomial rng p (n # ns) rows = Inr (rows @ ((?s, ?r) # tr), g)"
    using l by (simp add: trial_Inr[OF n])
  have b: "map (\<lambda>x. row_n (snd x)) ((?s, ?r) # tr) = n # ns"
    using m by simp
  show ?case
    by (rule exI[of _ "(?s, ?r) # tr"], rule exI[of _ g], rule conjI[OF a b])
qed

lemma n_values_nonzero: "0 \<notin> set (n_values b)"
  by (simp add: n_values_def)



text \<open>
  When the count of a draw is a function of the size alone, the counts of a run are
  that function along the list of sizes.
\<close>

lemma simulation_loop_draws:
  assumes "0 \<notin> set ns"
    and "\<And>rng0 n. n \<in> set ns \<Longrightarrow> fst (rng_binomial rng0 n p) = f n"
  shows "\<exists>tr g. simulation_loop rng_binomial rng p ns rows = Inr (rows @ tr, g)
           \<and> map fst tr = map f ns"
  using assms
proof (induction ns arbitrary: rng rows)
  case Nil
  then show ?case by simp
next
  case (Cons n ns)
  then have n: "n \<noteq> 0" and ns: "0 \<notin> set ns" by auto
  have f: "fst (rng_binomial rng0 m p) = f m" if "m \<in> set ns" for rng0 m
    using Cons.prems(2)[of m rng0] that by simp
  have fn: "fst (rng_binomial rng n p) = f n"
    using Cons.prems(2)[of n rng] by simp
  let ?r = "\<lparr>row_n = n, row_result = real_of_int (f n) / real_of_int n,
             row_abs_diff = \<bar>real_of_int (f n) / real_of_int n - p\<bar>\<rparr>"
  from Cons.IH[OF ns f, of "snd (rng_binomial rng n p)" "rows @ [(f n, ?r)]"]
  obtain tr g where
    l: "simulation_loop rng_binomial (snd (rng_binomial rng n p)) p ns (rows @ [(f n, ?r)])
          = Inr ((rows @ [(f n, ?r)]) @ tr, g)"
    and m: "map fst tr = map f ns"
    by blast
  have a: "simulation_loop rng_binomial rng p (n # ns) rows = Inr (rows @ ((f n, ?r) # tr), g)"
    using l by (simp add: trial_Inr[OF n] fn)
  have b: "map fst ((f n, ?r) # tr) = map f (n # ns)"
    using m by simp
  show ?case
    by (rule exI[of _ "(f n, ?r) # tr"], rule exI[of _ g], rule conjI[OF a b])
qed

lemma n_values_positive: "n \<in> set (n_values b) \<Longrightarrow> 0 < n"
  by (auto simp: n_values_def split: if_splits)

lemma simulation_loop_n_values_ok:
  "simulation_loop rng_binomial rng p (n_values b) [] \<noteq> Inl ZeroDivisionError"
  using simulation_loop_sizes[OF n_values_nonzero, of rng_binomial rng p b "[]"] by auto

lemma law_large_numbers3_eq:
  "law_large_numbers3 default_rng rng_binomial (widget_value 42 seed_entry) p_entry big_entry run =
   law_large_numbers default_rng rng_binomial entropy p_entry seed_entry big_entry run"
  by (simp add: law_large_numbers3_def law_large_numbers_def simulation_loop3_eq n_values3_eq)

text \<open>
  The unseeded script does read the entropy: two runs that differ in nothing else can
  draw different counts.
\<close>

lemma law_large_numbers3_reads_entropy:
  "successes_of (law_large_numbers3 (\<lambda>s. s) (\<lambda>g n p. (g, g)) 0 None None True)
   \<noteq> successes_of (law_large_numbers3 (\<lambda>s. s) (\<lambda>g n p. (g, g)) 1 None None True)"
  by (simp add: successes_of_def law_large_numbers3_def widget_value_def n_values3_def
      trial3_def true_div_def Let_def)

subsection \<open>The modelled sampler\<close>

lemma bernoulli_0: "\<not> bernoulli 0 u"
  using Rep_variate[of u] by (simp add: bernoulli_def)

lemma bernoulli_1: "bernoulli 1 u"
  using Rep_variate[of u] by (simp add: bernoulli_def)

lemma spec_binomial_range:
  "0 \<le> n \<Longrightarrow> 0 \<le> fst (spec_binomial rng n p) \<and> fst (spec_binomial rng n p) \<le> n"
proof -
  assume n: "0 \<le> n"
  have "length (filter (bernoulli p) (map rng [0..<nat n])) \<le> length (map rng [0..<nat n])"
    by (rule length_filter_le)
  then have "length (filter (bernoulli p) (map rng [0..<nat n])) \<le> nat n"
    by simp
  with n show ?thesis
    by (simp add: spec_binomial_def)
qed

lemma spec_binomial_0: "fst (spec_binomial rng n 0) = 0"
  by (simp add: spec_binomial_def bernoulli_0)

lemma spec_binomial_1: "0 \<le> n \<Longrightarrow> fst (spec_binomial rng n 1) = n"
  by (simp add: spec_binomial_def bernoulli_1)

section \<open>The claims\<close>





text \<open>
  C6. A run produces one row per configured sample size, in the order of the
  configured sizes; the configured sizes are 10, 50, 100, 1000, followed by
  10,000,000 exactly when the checkbox for the large size is set.
\<close>

theorem rows_follow_n_values:
  "n_values include_big_n =
     (if include_big_n then [10, 50, 100, 1000, 10000000] else [10, 50, 100, 1000])
   \<and> (\<exists>tr g. simulation_loop rng_binomial rng p (n_values include_big_n) [] = Inr (tr, g)
         \<and> length tr = length (n_values include_big_n)
         \<and> map (\<lambda>x. row_n (snd x)) tr = n_values include_big_n)"
proof -
  have "n_values include_big_n =
     (if include_big_n then [10, 50, 100, 1000, 10000000] else [10, 50, 100, 1000])"
    by (simp add: n_values_def)
  moreover from simulation_loop_sizes[OF n_values_nonzero, of rng_binomial rng p include_big_n "[]"]
  obtain tr g where
    l: "simulation_loop rng_binomial rng p (n_values include_big_n) [] = Inr (tr, g)" and
    m: "map (\<lambda>x. row_n (snd x)) tr = n_values include_big_n"
    by auto
  have "length (map (\<lambda>x. row_n (snd x)) tr) = length (n_values include_big_n)"
    by (simp only: m)
  then have k: "length tr = length (n_values include_big_n)"
    by simp
  have "\<exists>tr g. simulation_loop rng_binomial rng p (n_values include_big_n) [] = Inr (tr, g)
         \<and> length tr = length (n_values include_big_n)
         \<and> map (\<lambda>x. row_n (snd x)) tr = n_values include_big_n"
    by (rule exI[of _ tr], rule exI[of _ g], intro conjI, rule l, rule k, rule m)
  ultimately show ?thesis by (rule conjI)
qed


text \<open>
  C4. With the sampler as the spec describes it, for every generator and both settings
  of the checkbox, a run at \<open>p = 0\<close> ends without an error and draws the count 0
  at every configured size, and a run at \<open>p = 1\<close> ends without an error and draws
  at every configured size the size itself; this holds for the loop of either script.
\<close>

theorem degenerate_probabilities:
  "(\<exists>tr g. simulation_loop spec_binomial rng 0 (n_values include_big_n) [] = Inr (tr, g)
       \<and> map fst tr = map (\<lambda>n. 0) (n_values include_big_n))
   \<and> (\<exists>tr g. simulation_loop spec_binomial rng 1 (n_values include_big_n) [] = Inr (tr, g)
       \<and> map fst tr = n_values include_big_n)
   \<and> (\<exists>tr g. simulation_loop3 spec_binomial rng 0 (n_values3 include_big_n) [] = Inr (tr, g)
       \<and> map fst tr = map (\<lambda>n. 0) (n_values3 include_big_n))
   \<and> (\<exists>tr g. simulation_loop3 spec_binomial rng 1 (n_values3 include_big_n) [] = Inr (tr, g)
       \<and> map fst tr = n_values3 include_big_n)"
proof -
  have z: "\<exists>tr g. simulation_loop spec_binomial rng 0 (n_values include_big_n) [] = Inr (tr, g)
       \<and> map fst tr = map (\<lambda>n. 0) (n_values include_big_n)"
    using simulation_loop_draws[OF n_values_nonzero, of include_big_n spec_binomial 0 "\<lambda>n. 0" rng "[]"]
    by (simp add: spec_binomial_0)
  have f1: "fst (spec_binomial rng0 n 1) = n" if "n \<in> set (n_values include_big_n)" for rng0 n
    using n_values_positive[OF that] by (simp add: spec_binomial_1)
  have o: "\<exists>tr g. simulation_loop spec_binomial rng 1 (n_values include_big_n) [] = Inr (tr, g)
       \<and> map fst tr = n_values include_big_n"
    using simulation_loop_draws[where f = "\<lambda>n. n" and ns = "n_values include_big_n"
        and rng_binomial = spec_binomial and p = 1 and rng = rng and rows = "[]",
        OF n_values_nonzero f1]
    by simp
  from z o show ?thesis
    by (simp add: simulation_loop3_eq n_values3_eq)
qed

text \<open>
  C5. With the sampler as the spec describes it, for \<open>p\<close> between 0 and 1 and a list
  of positive sizes, every count a run of either script draws lies between 0 and the
  size of its row.
\<close>

theorem successes_in_range:
  assumes "0 \<le> p" and "p \<le> 1" and "\<forall>n \<in> set ns. 0 < n"
    and "simulation_loop spec_binomial rng p ns [] = Inr (tr, g)
         \<or> simulation_loop3 spec_binomial rng p ns [] = Inr (tr, g)"
    and "(successes, r) \<in> set tr"
  shows "0 \<le> successes \<and> successes \<le> row_n r"
proof -
  let ?P = "\<lambda>x. 0 \<le> fst x \<and> fst x \<le> row_n (snd x)"
  from assms(4) have l: "simulation_loop spec_binomial rng p ns [] = Inr (tr, g)"
    by (simp add: simulation_loop3_eq)
  have "\<forall>x \<in> set tr. ?P x"
  proof (rule simulation_loop_all[OF l])
    show "\<forall>x \<in> set []. ?P x" by simp
  next
    fix rng0 n s r0 rng'
    assume n: "n \<in> set ns" and t: "trial spec_binomial rng0 p n = Inr ((s, r0), rng')"
    from n assms(3) have "0 \<le> n" by auto
    from spec_binomial_range[OF this, of rng0 p] trial_row[OF t]
    show "?P (s, r0)" by simp
  qed
  with assms(5) show ?thesis by fastforce
qed

theorem successes_in_range_witness:
  "(0::real) \<le> 1 / 2 \<and> (1 / 2 :: real) \<le> 1 \<and> list_all (\<lambda>n. 0 < n) [4::int]
   \<and> simulation_loop spec_binomial (\<lambda>i. Abs_variate (if i < 2 then 1 / 4 else 3 / 4)) (1 / 2) [4] []
       = Inr ([(2, \<lparr>row_n = 4, row_result = 1 / 2, row_abs_diff = 0\<rparr>)], \<lambda>i. Abs_variate (3 / 4))
   \<and> (0::int) \<le> 2 \<and> 2 \<le> row_n \<lparr>row_n = 4, row_result = 1 / 2, row_abs_diff = 0\<rparr>"
  using successes_in_range[of "1 / 2" "[4]"
      "\<lambda>i. Abs_variate (if i < 2 then 1 / 4 else 3 / 4)"
      "[(2, \<lparr>row_n = 4, row_result = 1 / 2, row_abs_diff = 0\<rparr>)]"
      "\<lambda>i. Abs_variate (3 / 4)"
      2 "\<lparr>row_n = 4, row_result = 1 / 2, row_abs_diff = 0\<rparr>"]
  by (simp add: trial_def true_div_def spec_binomial_def bernoulli_def Abs_variate_inverse
      upt_rec numeral_eq_Suc)

text \<open>
  C8. Every configured size of either script is positive, so the division in the loop
  never raises: neither loop, and neither script, ends in \<^verbatim>\<open>ZeroDivisionError\<close>,
  for any sampler, generator, probability and setting of the widgets.
\<close>

theorem no_division_by_zero:
  "list_all (\<lambda>n. 0 < n) (n_values include_big_n)
   \<and> list_all (\<lambda>n. 0 < n) (n_values3 include_big_n)
   \<and> simulation_loop rng_binomial rng p (n_values include_big_n) [] \<noteq> Inl ZeroDivisionError
   \<and> simulation_loop3 rng_binomial rng p (n_values3 include_big_n) [] \<noteq> Inl ZeroDivisionError
   \<and> law_large_numbers default_rng rng_binomial entropy p_entry seed_entry big_entry run
       \<noteq> Some (Inl ZeroDivisionError)
   \<and> law_large_numbers3 default_rng rng_binomial entropy p_entry big_entry run
       \<noteq> Some (Inl ZeroDivisionError)"
proof -
  have a: "list_all (\<lambda>n. 0 < n) (n_values include_big_n)"
    by (simp add: n_values_def)
  have b: "simulation_loop rng_binomial rng p (n_values include_big_n) [] \<noteq> Inl ZeroDivisionError"
    by (rule simulation_loop_n_values_ok)
  have c: "law_large_numbers default_rng rng_binomial entropy p_entry seed_entry big_entry run
       \<noteq> Some (Inl ZeroDivisionError)"
    using simulation_loop_n_values_ok[of rng_binomial
        "default_rng (widget_value 42 seed_entry)" "widget_value (1 / 2) p_entry"
        "widget_value False big_entry"]
    by (auto simp: law_large_numbers_def split: sum.splits)
  have d: "law_large_numbers3 default_rng rng_binomial entropy p_entry big_entry run
       \<noteq> Some (Inl ZeroDivisionError)"
    using simulation_loop_n_values_ok[of rng_binomial
        "default_rng entropy" "widget_value (1 / 2) p_entry"
        "widget_value False big_entry"]
    by (auto simp: law_large_numbers3_def simulation_loop3_eq n_values3_eq split: sum.splits)
  show ?thesis
    using a b c d by (simp add: simulation_loop3_eq n_values3_eq)
qed

text \<open>
  C9. The two scripts configure the same sizes, and on the same generator, sampler and
  probability their loops return the same result; the unseeded script, run on the
  entropy that equals the seed of the seeded script, returns what the seeded script
  returns.
\<close>

theorem variants_share_simulation_core:
  "n_values3 include_big_n = n_values include_big_n
   \<and> simulation_loop3 rng_binomial rng p (n_values3 include_big_n) []
       = simulation_loop rng_binomial rng p (n_values include_big_n) []
   \<and> law_large_numbers3 default_rng rng_binomial (widget_value 42 seed_entry) p_entry big_entry run
       = law_large_numbers default_rng rng_binomial entropy p_entry seed_entry big_entry run"
  by (simp add: n_values3_eq simulation_loop3_eq law_large_numbers3_eq)


end
